theory Spec2Isabelle
  imports Complex_Main "HOL-Library.Word"
begin

section \<open>The CoDel queue of codel-queue2.cc\<close>

text \<open>
  A shallow embedding of \<^verbatim>\<open>CoDelQueue2\<close> (ns-3, file codel-queue2.cc): the admission
  test of \<^verbatim>\<open>DoEnqueue\<close>, the sojourn tracker \<^verbatim>\<open>checkSojournTime\<close>, the marking
  scheduler of \<^verbatim>\<open>DoDequeue\<close> and the queries \<^verbatim>\<open>DoPeek\<close>, \<^verbatim>\<open>GetQueueSize\<close>,
  \<^verbatim>\<open>isOkToMark\<close> and \<^verbatim>\<open>isQueueOverLimit\<close>. Every member function becomes a function
  from the object's state (and the simulator's clock, read by \<^verbatim>\<open>Simulator::Now()\<close>) to
  its result and the new state.

  Numbers.
  \<^item> CoDel time stamps are \<^verbatim>\<open>uint64_t\<close> (the type of \<^verbatim>\<open>now\<close>, of the arguments of
    \<^verbatim>\<open>CoDelTimeAfter\<close> and of the result of \<^verbatim>\<open>getNextMarkingTime\<close>): 64-bit words,
    and so are the two members that store them, \<open>m_firstAboveTime\<close> and
    \<open>m_nextMarkingTime\<close>.
  \<^item> Byte and packet counters are 32-bit words: \<^verbatim>\<open>Packet::GetSize\<close> and
    \<^verbatim>\<open>GetQueueSize\<close> return \<^verbatim>\<open>uint32_t\<close>, the limits are registered with
    \<^verbatim>\<open>MakeUintegerChecker<uint32_t>\<close> and the traced counters with
    \<^verbatim>\<open>Uint32Callback\<close>. Their arithmetic wraps around at \<open>2 ^ 32\<close>.
  \<^item> An ns-3 \<^verbatim>\<open>Time\<close> is its number of nanoseconds, an \<open>int\<close>.
  \<^item> A \<^verbatim>\<open>double\<close> is a \<open>real\<close>. In the estimator and the scheduler its arithmetic
    is idealised as real arithmetic (rounding is not modelled). In
    \<^verbatim>\<open>isQueueOverLimit\<close>, whose answer can turn on the last bit of a product, the
    product is rounded as IEEE 754 binary64 arithmetic rounds it (\<open>double_mul\<close> below).
    Where the C++ leaves the reals (a division by \<open>0.0\<close>, a conversion of a value
    that does not fit the target type) the model says so explicitly.
\<close>

type_synonym time = int
type_synonym codel_time = "64 word"

record packet =
  uid :: nat
  GetSize :: "32 word"
  timestampTag :: "time option"

datatype QueueMode = QUEUE_MODE_PACKETS | QUEUE_MODE_BYTES

datatype error =
    MissingTimestampTag
  | AssertionFailed
  | DoubleToUint64OutOfRange

text \<open>
  The members of the class that the modelled functions read or write, under their
  names in the source. \<open>m_nTotalDroppedPackets\<close> and \<open>m_nTotalDroppedBytes\<close> are the
  counters of the base class \<^verbatim>\<open>Queue\<close> that \<^verbatim>\<open>Drop\<close> increments; \<open>Cwnd\<close> is the static
  member; \<open>Cwnd = None\<close> stands for a value that is not a finite number (the quotient
  by \<open>0.0\<close>). \<open>CODEL2_SHIFT\<close> is the macro of the header, which is not part of the
  sources: it is carried as a parameter that no function changes.
\<close>

record codel =
  m_packets :: "packet list"
  m_mode :: QueueMode
  m_maxPackets :: "32 word"
  m_maxBytes :: "32 word"
  m_bytesInQueue :: "32 word"
  m_interval :: time
  m_target :: time
  m_markedCount :: "32 word"
  m_dropCount :: "32 word"
  m_lastCount :: "32 word"
  m_firstAboveTime :: codel_time
  m_nextMarkingTime :: codel_time
  m_state1 :: "32 word"
  m_state2 :: "32 word"
  m_state3 :: "32 word"
  m_states :: "32 word"
  m_dropOverLimit :: "32 word"
  m_sojourn :: time
  sojournTime_before :: real
  probability :: real
  Cwnd :: "real option"
  m_overTargetForInterval :: bool
  m_markNext :: bool
  m_nTotalDroppedPackets :: "32 word"
  m_nTotalDroppedBytes :: "32 word"
  CODEL2_SHIFT :: nat

text \<open>
  The constructor, followed by the attribute initialisation that sets the
  configuration (mode, limits, interval, target).
\<close>

definition CoDelQueue2 ::
  "QueueMode \<Rightarrow> 32 word \<Rightarrow> 32 word \<Rightarrow> time \<Rightarrow> time \<Rightarrow> nat \<Rightarrow> codel" where
  "CoDelQueue2 mode maxPackets maxBytes interval target shift =
     \<lparr> m_packets = [], m_mode = mode, m_maxPackets = maxPackets, m_maxBytes = maxBytes,
       m_bytesInQueue = 0, m_interval = interval, m_target = target,
       m_markedCount = 0, m_dropCount = 0, m_lastCount = 0,
       m_firstAboveTime = 0, m_nextMarkingTime = 0,
       m_state1 = 0, m_state2 = 0, m_state3 = 0, m_states = 0,
       m_dropOverLimit = 0, m_sojourn = 0, sojournTime_before = 0, probability = 0,
       Cwnd = Some 0, m_overTargetForInterval = False, m_markNext = False,
       m_nTotalDroppedPackets = 0, m_nTotalDroppedBytes = 0, CODEL2_SHIFT = shift \<rparr>"

subsection \<open>Double-precision products\<close>

text \<open>
  IEEE 754 binary64, round to nearest, ties to even: a finite non-zero \<open>x\<close> with
  \<open>2 ^ e \<le> \<bar>x\<bar> < 2 ^ (e + 1)\<close> is rounded to a multiple of \<open>2 ^ (e - 52)\<close>, and to a
  multiple of \<open>2 ^ (- 1074)\<close> in the subnormal range \<open>e < - 1022\<close>. Overflow to infinity
  (from \<open>2 ^ 1024\<close> on) is not modelled; the products formed below stay under \<open>2 ^ 32\<close>.
  Converting a \<^verbatim>\<open>uint32_t\<close> to \<^verbatim>\<open>double\<close> is exact.
\<close>

definition round_even :: "real \<Rightarrow> int" where
  "round_even y =
     (let f = \<lfloor>y\<rfloor>
      in if y - of_int f < 1 / 2 then f
         else if y - of_int f > 1 / 2 then f + 1
         else if even f then f else f + 1)"

definition double_round :: "real \<Rightarrow> real" where
  "double_round x =
     (if x = 0 then 0
      else (let e = max \<lfloor>log 2 \<bar>x\<bar>\<rfloor> (- 1022);
                q = 2 powi (e - 52)
            in sgn x * (q * of_int (round_even (\<bar>x\<bar> / q)))))"

definition double_mul :: "real \<Rightarrow> real \<Rightarrow> real" where
  "double_mul a b = double_round (a * b)"

subsection \<open>Time codec\<close>

text \<open>
  \<^verbatim>\<open>t.GetNanoSeconds() >> CODEL2_SHIFT\<close> shifts an \<^verbatim>\<open>int64_t\<close> arithmetically and
  returns it as \<^verbatim>\<open>uint64_t\<close>; \<^verbatim>\<open>CoDelGetTime\<close> converts first and shifts the unsigned
  value.
\<close>

definition Time2CoDel :: "codel \<Rightarrow> time \<Rightarrow> codel_time" where
  "Time2CoDel s t = word_of_int (t div 2 ^ CODEL2_SHIFT s)"

definition CoDelGetTime :: "codel \<Rightarrow> time \<Rightarrow> codel_time" where
  "CoDelGetTime s nowT = drop_bit (CODEL2_SHIFT s) (word_of_int nowT)"

definition GetSeconds :: "time \<Rightarrow> real" where
  "GetSeconds t = real_of_int t / 1000000000"

text \<open>
  The comparisons subtract as \<^verbatim>\<open>int64_t\<close>; the difference is taken in two's
  complement, as the spec's \<open>(int64)(a - b)\<close> has it. This is the comparison of the two
  signed values wherever their difference fits 64 bits, which covers every pair of
  time stamps less than \<open>2 ^ 63\<close> units apart.
\<close>

definition CoDelTimeAfter :: "codel_time \<Rightarrow> codel_time \<Rightarrow> bool" where
  "CoDelTimeAfter a b = (sint (a - b) > 0)"

definition CoDelTimeAfterEq :: "codel_time \<Rightarrow> codel_time \<Rightarrow> bool" where
  "CoDelTimeAfterEq a b = (sint (a - b) \<ge> 0)"

subsection \<open>Admission\<close>

text \<open>
  Modelled from the spec: \<^verbatim>\<open>Queue::Drop\<close> of the base class, called by \<^verbatim>\<open>Drop\<close> and
  defined outside this file, publishes the drop on the trace (out of the spec's scope)
  and leaves the state alone.
\<close>

definition Queue_Drop :: "packet \<Rightarrow> codel \<Rightarrow> codel" where
  "Queue_Drop p s = s"

definition Drop :: "packet \<Rightarrow> codel \<Rightarrow> codel" where
  "Drop p s =
     Queue_Drop p
       (s\<lparr> m_nTotalDroppedPackets := m_nTotalDroppedPackets s + 1,
           m_nTotalDroppedBytes := m_nTotalDroppedBytes s + GetSize p \<rparr>)"

text \<open>
  Modelled from the spec: the constructor of \<^verbatim>\<open>CoDelTimestampTag\<close> (declared in this
  file, defined elsewhere) records the current time; \<^verbatim>\<open>AddPacketTag\<close> attaches it.
\<close>

definition AddPacketTag :: "time \<Rightarrow> packet \<Rightarrow> packet" where
  "AddPacketTag nowT p = p\<lparr> timestampTag := Some nowT \<rparr>"

text \<open>
  \<^verbatim>\<open>m_packets.size() + 1 > m_maxPackets\<close> compares as \<^verbatim>\<open>size_t\<close>, which a list that
  fits in memory does not overflow; \<^verbatim>\<open>m_bytesInQueue + p->GetSize() > m_maxBytes\<close> is
  32-bit arithmetic.
\<close>

definition DoEnqueue :: "codel \<Rightarrow> packet \<Rightarrow> time \<Rightarrow> bool \<times> codel" where
  "DoEnqueue s p nowT =
     (if m_mode s = QUEUE_MODE_PACKETS \<and> length (m_packets s) + 1 > unat (m_maxPackets s)
      then (let s1 = Drop p s in (False, s1\<lparr> m_dropOverLimit := m_dropOverLimit s1 + 1 \<rparr>))
      else if m_mode s = QUEUE_MODE_BYTES \<and> m_bytesInQueue s + GetSize p > m_maxBytes s
      then (let s1 = Drop p s in (False, s1\<lparr> m_dropOverLimit := m_dropOverLimit s1 + 1 \<rparr>))
      else (True, s\<lparr> m_bytesInQueue := m_bytesInQueue s + GetSize p,
                      m_packets := m_packets s @ [AddPacketTag nowT p] \<rparr>))"

definition GetQueueSize :: "codel \<Rightarrow> 32 word" where
  "GetQueueSize s =
     (case m_mode s of
        QUEUE_MODE_BYTES \<Rightarrow> m_bytesInQueue s
      | QUEUE_MODE_PACKETS \<Rightarrow> word_of_nat (length (m_packets s)))"

text \<open>\<^verbatim>\<open>DoPeek\<close> is a \<^verbatim>\<open>const\<close> member; the state is threaded through all the same.\<close>

definition DoPeek :: "codel \<Rightarrow> packet option \<times> codel" where
  "DoPeek s = (case m_packets s of [] \<Rightarrow> (None, s) | p # ps \<Rightarrow> (Some p, s))"

subsection \<open>Sojourn tracker and probability estimator\<close>

text \<open>
  \<^verbatim>\<open>checkSojournTime\<close>. \<^verbatim>\<open>RemovePacketTag\<close> takes the tag off the packet, and
  \<^verbatim>\<open>NS_ASSERT_MSG(found, ...)\<close> aborts when there was none. \<open>nowT\<close> is
  \<^verbatim>\<open>Simulator::Now()\<close>, \<open>now\<close> the CoDel time of the caller.
\<close>

definition checkSojournTime ::
  "codel \<Rightarrow> packet \<Rightarrow> codel_time \<Rightarrow> time \<Rightarrow> error + (bool \<times> packet \<times> codel)" where
  "checkSojournTime s p now nowT =
     (case timestampTag p of
        None \<Rightarrow> Inl MissingTimestampTag
      | Some tx \<Rightarrow>
          (let p' = p\<lparr> timestampTag := None \<rparr>;
               delta = nowT - tx;
               sojournTime = Time2CoDel s delta
           in if CoDelTimeAfter sojournTime (Time2CoDel s (m_target s)) then
                (if m_firstAboveTime s = 0 then
                   Inr (False, p', s\<lparr> m_overTargetForInterval := False, m_firstAboveTime := now \<rparr>)
                 else if CoDelTimeAfter now (m_firstAboveTime s + Time2CoDel s (m_interval s)) then
                   (let pr0 = probability s
                              + 0.125 * (GetSeconds delta - GetSeconds (m_target s))
                              + 1.25 * (GetSeconds delta - sojournTime_before s);
                        pr1 = (if pr0 \<le> 0 then 0 else pr0);
                        pr2 = (if pr1 \<ge> 1 then 1 else pr1)
                    in Inr (True, p',
                         s\<lparr> m_sojourn := delta,
                            m_overTargetForInterval := True,
                            probability := pr2,
                            Cwnd := (if GetSeconds delta = 0 then None
                                     else Some ((0.125 * (GetSeconds (m_target s) - GetSeconds delta) - pr2)
                                                / (1.375 * GetSeconds delta))),
                            sojournTime_before := GetSeconds delta \<rparr>))
                 else Inr (False, p', s\<lparr> m_overTargetForInterval := False \<rparr>))
              else
                Inr (False, p', s\<lparr> m_firstAboveTime := 0, m_overTargetForInterval := False \<rparr>)))"

subsection \<open>Marking scheduler\<close>

text \<open>
  \<^verbatim>\<open>getNextMarkingTime\<close>: the product of the interval and \<open>1.1 / sqrt count\<close> is a
  \<^verbatim>\<open>double\<close>, converted to \<^verbatim>\<open>uint64_t\<close> by truncation. The conversion is undefined when
  the count is 0 (the quotient is infinite) or the product does not fit 64 bits.
\<close>

definition getNextMarkingTime :: "codel \<Rightarrow> codel_time \<Rightarrow> error + codel_time" where
  "getNextMarkingTime s t =
     (let x = real (unat (Time2CoDel s (m_interval s))) * (1.1 / sqrt (real (unat (m_markedCount s))))
      in if m_markedCount s = 0 \<or> x \<ge> 2 ^ 64 then Inl DoubleToUint64OutOfRange
         else Inr (t + word_of_int \<lfloor>x\<rfloor>))"

definition DoDequeue :: "codel \<Rightarrow> time \<Rightarrow> error + (packet option \<times> codel)" where
  "DoDequeue s nowT =
     (case m_packets s of
        [] \<Rightarrow> Inr (None, s\<lparr> m_overTargetForInterval := False, m_firstAboveTime := 0 \<rparr>)
      | p # ps \<Rightarrow>
          (let now = CoDelGetTime s nowT;
               s1 = s\<lparr> m_packets := ps, m_bytesInQueue := m_bytesInQueue s - GetSize p \<rparr>
           in case checkSojournTime s1 p now nowT of
                Inl e \<Rightarrow> Inl e
              | Inr (okToMark, p', s2) \<Rightarrow>
                  if okToMark then
                    (if CoDelTimeAfterEq now (m_nextMarkingTime s2) then
                       (let s3 = s2\<lparr> m_markedCount := m_markedCount s2 + 1, m_markNext := True \<rparr>
                        in case getNextMarkingTime s3 now of
                             Inl e \<Rightarrow> Inl e
                           | Inr t \<Rightarrow> Inr (Some p', s3\<lparr> m_nextMarkingTime := t,
                                                          m_states := m_states s3 + 1 \<rparr>))
                     else Inr (Some p', s2\<lparr> m_states := m_states s2 + 1 \<rparr>))
                  else Inr (Some p', s2\<lparr> m_markedCount := 0, m_states := m_states s2 + 1 \<rparr>)))"

subsection \<open>Queries\<close>

definition traceOkToDrop :: "codel \<Rightarrow> bool" where
  "traceOkToDrop s = m_overTargetForInterval s"

definition isOkToMark :: "codel \<Rightarrow> bool \<times> codel" where
  "isOkToMark s =
     (if m_markNext s then (m_overTargetForInterval s, s\<lparr> m_markNext := False \<rparr>)
      else (False, s))"

text \<open>
  \<^verbatim>\<open>assert(limit >= 0 && limit <= 1)\<close> aborts outside the unit interval. The two
  limits are converted to \<^verbatim>\<open>double\<close> and multiplied by \<open>limit\<close> in double precision;
  the counter and the queue length are converted (exactly, below \<open>2 ^ 53\<close>) and
  compared with the products.
\<close>

text \<open>The argument \<open>limit\<close> is the value of the \<^verbatim>\<open>double\<close> that the caller passes.\<close>

definition isQueueOverLimit :: "codel \<Rightarrow> real \<Rightarrow> error + bool" where
  "isQueueOverLimit s limit =
     (if \<not> (limit \<ge> 0 \<and> limit \<le> 1) then Inl AssertionFailed
      else if real (unat (m_bytesInQueue s)) > double_mul (real (unat (m_maxBytes s))) limit
              \<or> real (length (m_packets s)) > double_mul (real (unat (m_maxPackets s))) limit
      then Inr True else Inr False)"

subsection \<open>Runs\<close>

text \<open>
  A run is a sequence of calls, each with the clock's value at the call. A run stops
  at the first call that aborts.
\<close>

datatype call = Enqueue packet time | Dequeue time

primrec run :: "call list \<Rightarrow> codel \<Rightarrow> error + codel" where
  "run [] s = Inr s"
| "run (c # cs) s =
     (case c of
        Enqueue p nowT \<Rightarrow> run cs (snd (DoEnqueue s p nowT))
      | Dequeue nowT \<Rightarrow>
          (case DoDequeue s nowT of Inl e \<Rightarrow> Inl e | Inr r \<Rightarrow> run cs (snd r)))"

text \<open>\<open>peeks n\<close> calls \<^verbatim>\<open>DoPeek\<close> \<open>n\<close> times in a row and collects the results.\<close>

primrec peeks :: "nat \<Rightarrow> codel \<Rightarrow> packet option list \<times> codel" where
  "peeks 0 s = ([], s)"
| "peeks (Suc n) s =
     (case DoPeek s of (r, s1) \<Rightarrow> (case peeks n s1 of (rs, s2) \<Rightarrow> (r # rs, s2)))"

subsection \<open>Invariants of the byte and packet accounting\<close>

text \<open>The byte counter is the 32-bit sum of the sizes of the queued packets.\<close>

definition bytes_counted :: "codel \<Rightarrow> bool" where
  "bytes_counted s = (m_bytesInQueue s = sum_list (map GetSize (m_packets s)))"

definition packets_within :: "codel \<Rightarrow> bool" where
  "packets_within s = (length (m_packets s) \<le> unat (m_maxPackets s))"

text \<open>
  The byte counter is the sum of the sizes as a natural number (nothing has wrapped
  around) and within the limit.
\<close>

definition bytes_within :: "codel \<Rightarrow> bool" where
  "bytes_within s =
     (unat (m_bytesInQueue s) = (\<Sum>p\<leftarrow>m_packets s. unat (GetSize p))
      \<and> m_bytesInQueue s \<le> m_maxBytes s)"

text \<open>No packet offered to the queue is so large that the 32-bit admission sum can wrap.\<close>

primrec small_packets :: "32 word \<Rightarrow> call list \<Rightarrow> bool" where
  "small_packets maxBytes [] = True"
| "small_packets maxBytes (c # cs) =
     ((case c of Enqueue p nowT \<Rightarrow> unat (GetSize p) + unat maxBytes < 2 ^ 32 | Dequeue nowT \<Rightarrow> True)
      \<and> small_packets maxBytes cs)"

text \<open>Every queued packet carries the time stamp that \<^verbatim>\<open>DoEnqueue\<close> attached.\<close>

definition all_tagged :: "codel \<Rightarrow> bool" where
  "all_tagged s = list_all (\<lambda>p. timestampTag p \<noteq> None) (m_packets s)"

subsection \<open>Example scenarios\<close>

text \<open>
  The spec's example configuration: target 5 ms, interval 100 ms, packet-count mode
  with at most 100 packets, and a shift of 10 bits (1 CoDel time unit = 1024 ns, so the
  interval is 97656 units and the target 4882). Two packets arrive at time 0. The first
  leaves after 8 ms (\<open>demo_pending\<close>: above target, first-above time 7812). If the second
  leaves at 116 ms the over-target condition is confirmed and the scheduler fires
  (\<open>demo_marked\<close>; \<open>demo_confirmed\<close> is the tracker's state before the scheduler acts); a
  further dequeue finds the queue empty (\<open>demo_drained\<close>). If instead the second packet
  leaves at 107999232 ns, which is CoDel time 105468 = 7812 + 97656, the result is
  \<open>demo_unconfirmed\<close>.
\<close>

definition pkt :: "nat \<Rightarrow> 32 word \<Rightarrow> packet" where
  "pkt i n = \<lparr> uid = i, GetSize = n, timestampTag = None \<rparr>"

definition demo_queue :: codel where
  "demo_queue = CoDelQueue2 QUEUE_MODE_PACKETS 100 1500000 100000000 5000000 10"

definition demo_pending :: codel where
  "demo_pending =
     demo_queue\<lparr> m_packets := [AddPacketTag 0 (pkt 2 1000)], m_bytesInQueue := 1000,
                  m_firstAboveTime := 7812, m_states := 1 \<rparr>"

definition demo_popped :: codel where
  "demo_popped = demo_pending\<lparr> m_packets := [], m_bytesInQueue := 0 \<rparr>"

definition demo_confirmed :: codel where
  "demo_confirmed =
     demo_queue\<lparr> m_firstAboveTime := 7812, m_states := 1,
                  m_sojourn := 116000000, sojournTime_before := 0.116,
                  probability := 0.158875, Cwnd := Some (- 0.17275 / 0.1595),
                  m_overTargetForInterval := True \<rparr>"

definition demo_marked :: codel where
  "demo_marked =
     demo_confirmed\<lparr> m_markedCount := 1, m_markNext := True,
                      m_nextMarkingTime := 220702, m_states := 2 \<rparr>"

definition demo_drained :: codel where
  "demo_drained = demo_marked\<lparr> m_overTargetForInterval := False, m_firstAboveTime := 0 \<rparr>"

definition demo_unconfirmed :: codel where
  "demo_unconfirmed = demo_queue\<lparr> m_firstAboveTime := 7812, m_states := 2 \<rparr>"

text \<open>
  The same queue with a byte limit of 1500, holding one packet of 1000 bytes; and a
  queue in byte-count mode with a limit of 100 bytes, holding one packet of 60 bytes.
\<close>

definition demo_one :: codel where
  "demo_one =
     (CoDelQueue2 QUEUE_MODE_PACKETS 100 1500 100000000 5000000 10)
       \<lparr> m_packets := [AddPacketTag 0 (pkt 1 1000)], m_bytesInQueue := 1000 \<rparr>"

definition bytes_queue :: codel where
  "bytes_queue = CoDelQueue2 QUEUE_MODE_BYTES 1000 100 100000000 5000000 10"

definition bytes_sixty :: codel where
  "bytes_sixty = bytes_queue\<lparr> m_packets := [AddPacketTag 0 (pkt 1 60)], m_bytesInQueue := 60 \<rparr>"

text \<open>
  A queue in byte-count mode with a limit of 10 bytes, holding one packet of 3 bytes;
  and the \<^verbatim>\<open>double\<close> that the literal \<^verbatim>\<open>0.3\<close> denotes, which lies just below three
  tenths.
\<close>

definition bytes_three :: codel where
  "bytes_three =
     (CoDelQueue2 QUEUE_MODE_BYTES 1000 10 100000000 5000000 10)
       \<lparr> m_packets := [AddPacketTag 0 (pkt 1 3)], m_bytesInQueue := 3 \<rparr>"

definition double_three_tenths :: real where
  "double_three_tenths = 5404319552844595 / 2 ^ 54"

section \<open>Supporting lemmas\<close>

lemmas codel_defs =
  DoEnqueue_def AddPacketTag_def Drop_def Queue_Drop_def DoDequeue_def checkSojournTime_def
  getNextMarkingTime_def Time2CoDel_def CoDelGetTime_def GetSeconds_def
  CoDelTimeAfter_def CoDelTimeAfterEq_def Let_def

lemmas demo_defs =
  pkt_def demo_queue_def demo_pending_def demo_popped_def demo_confirmed_def demo_marked_def
  demo_drained_def demo_unconfirmed_def demo_one_def bytes_queue_def bytes_sixty_def
  bytes_three_def CoDelQueue2_def

text \<open>The two clamping statements of the estimator bring a value into the unit interval.\<close>

lemma clamp_min_max:
  "(if (if x \<le> 0 then 0 else x) \<ge> 1 then 1 else (if x \<le> 0 then 0 else x)) = min 1 (max 0 x)"
  for x :: real
  by (simp add: min_def max_def)

subsection \<open>Evaluating the rounding\<close>

text \<open>
  Once the binade of a positive \<open>x\<close> is known, the rounding is a rounding of
  \<open>x * 2 ^ (52 - e)\<close> to an integer.
\<close>

lemma double_round_normal:
  assumes "2 powi e \<le> x" and "x < 2 powi (e + 1)" and "- 1022 \<le> e" and "e \<le> 52"
  shows "double_round x = of_int (round_even (x * 2 ^ nat (52 - e))) / 2 ^ nat (52 - e)"
proof -
  have "(0::real) < 2 powi e" by simp
  with assms(1) have pos: "0 < x" by linarith
  have l: "2 powr (real_of_int e) \<le> x"
    using assms(1) by (simp add: powr_real_of_int')
  have "(2::real) powr (real_of_int (e + 1)) = 2 powi (e + 1)"
    by (rule powr_real_of_int') simp_all
  with assms(2) have u: "x < 2 powr (real_of_int e + 1)" by simp
  from l u pos have fl: "\<lfloor>log 2 x\<rfloor> = e"
    by (simp add: floor_log_eq_powr_iff)
  have q: "(2::real) powi (e - 52) = 1 / 2 ^ nat (52 - e)"
    using assms(4) by (simp add: power_int_def field_simps)
  from pos assms(3) fl show ?thesis
    by (simp add: double_round_def Let_def max_def q)
qed

text \<open>The literal \<^verbatim>\<open>0.3\<close> denotes \<open>double_three_tenths\<close>, which is a \<^verbatim>\<open>double\<close>.\<close>

lemma double_round_three_tenths: "double_round (3 / 10) = double_three_tenths"
  using double_round_normal[of "- 2" "3 / 10"]
  by (simp add: double_three_tenths_def round_even_def Let_def power_int_def power_divide)

lemma double_three_tenths_fixed: "double_round double_three_tenths = double_three_tenths"
  using double_round_normal[of "- 2" "5404319552844595 / 2 ^ 54"]
  by (simp add: double_three_tenths_def round_even_def Let_def power_int_def power_divide)

text \<open>Ten times that number is below 3 by \<open>2 ^ (- 53)\<close> and rounds to 3.\<close>

lemma double_mul_ten_three_tenths: "double_mul 10 double_three_tenths = 3"
  using double_round_normal[of 1 "10 * (5404319552844595 / 2 ^ 54)"]
  by (simp add: double_mul_def double_three_tenths_def round_even_def Let_def power_int_def)

lemma double_mul_thousand_three_tenths: "double_mul 1000 double_three_tenths = 300"
  using double_round_normal[of 8 "1000 * (5404319552844595 / 2 ^ 54)"]
  by (simp add: double_mul_def double_three_tenths_def round_even_def Let_def power_int_def)

lemma double_mul_half: "double_mul 1500 (1 / 2) = 750" "double_mul 100 (1 / 2) = 50"
  using double_round_normal[of 9 750] double_round_normal[of 5 50]
  by (simp_all add: double_mul_def round_even_def Let_def power_int_def)

subsection \<open>What the tracker and a dequeue leave alone\<close>


lemma checkSojournTime_returns:
  "timestampTag p = Some tx \<Longrightarrow>
     \<exists>ok s'. checkSojournTime s p now nowT = Inr (ok, p\<lparr> timestampTag := None \<rparr>, s')"
  by (auto simp add: checkSojournTime_def Let_def)

lemma DoDequeue_frame:
  assumes "DoDequeue s nowT = Inr (r, s')"
  shows "m_packets s' = tl (m_packets s)"
    and "m_bytesInQueue s' =
           (case m_packets s of [] \<Rightarrow> m_bytesInQueue s | p # ps \<Rightarrow> m_bytesInQueue s - GetSize p)"
    and "m_mode s' = m_mode s" and "m_maxPackets s' = m_maxPackets s"
    and "m_maxBytes s' = m_maxBytes s"
  using assms
  by (auto simp add: DoDequeue_def checkSojournTime_def getNextMarkingTime_def Let_def
        split: list.splits sum.splits if_splits option.splits)

lemma DoEnqueue_frame:
  "m_mode (snd (DoEnqueue s p nowT)) = m_mode s"
  "m_maxPackets (snd (DoEnqueue s p nowT)) = m_maxPackets s"
  "m_maxBytes (snd (DoEnqueue s p nowT)) = m_maxBytes s"
  "probability (snd (DoEnqueue s p nowT)) = probability s"
  by (simp_all add: DoEnqueue_def Drop_def Queue_Drop_def Let_def)

subsection \<open>The example scenarios, evaluated\<close>

lemma run_demo_pending:
  "run [Enqueue (pkt 1 1000) 0, Enqueue (pkt 2 1000) 0, Dequeue 8000000] demo_queue
     = Inr demo_pending"
  by (simp add: demo_defs codel_defs)


lemma run_demo_drained:
  "run [Enqueue (pkt 1 1000) 0, Enqueue (pkt 2 1000) 0, Dequeue 8000000, Dequeue 116000000,
        Dequeue 117000000] demo_queue = Inr demo_drained"
  by (simp add: demo_defs codel_defs)

lemma run_demo_one:
  "run [Enqueue (pkt 1 1000) 0] (CoDelQueue2 QUEUE_MODE_PACKETS 100 1500 100000000 5000000 10)
     = Inr demo_one"
  by (simp add: demo_defs codel_defs)

lemma run_bytes_sixty: "run [Enqueue (pkt 1 60) 0] bytes_queue = Inr bytes_sixty"
  by (simp add: demo_defs codel_defs)

lemma run_bytes_three:
  "run [Enqueue (pkt 1 3) 0] (CoDelQueue2 QUEUE_MODE_BYTES 1000 10 100000000 5000000 10)
     = Inr bytes_three"
  by (simp add: demo_defs codel_defs)

subsection \<open>The time stamp assertion never fires\<close>

text \<open>
  A queue that was filled by \<^verbatim>\<open>DoEnqueue\<close> holds stamped packets only, so the
  \<^verbatim>\<open>NS_ASSERT_MSG\<close> of \<^verbatim>\<open>checkSojournTime\<close> holds in every run from the initial state;
  the only way a dequeue can fail is the conversion in \<^verbatim>\<open>getNextMarkingTime\<close>.
\<close>

lemma DoEnqueue_all_tagged:
  "all_tagged s \<Longrightarrow> all_tagged (snd (DoEnqueue s p nowT))"
  by (simp add: all_tagged_def DoEnqueue_def Drop_def Queue_Drop_def AddPacketTag_def Let_def)

lemma DoDequeue_all_tagged:
  "DoDequeue s nowT = Inr (r, s') \<Longrightarrow> all_tagged s \<Longrightarrow> all_tagged s'"
  by (cases "m_packets s") (simp_all add: all_tagged_def DoDequeue_frame)

lemma DoDequeue_tagged_error:
  assumes "all_tagged s" and "DoDequeue s nowT = Inl e"
  shows "e = DoubleToUint64OutOfRange"
proof (cases "m_packets s")
  case Nil
  with assms(2) show ?thesis by (simp add: DoDequeue_def)
next
  case (Cons p ps)
  with assms(1) obtain tx where tx: "timestampTag p = Some tx"
    by (auto simp add: all_tagged_def)
  from checkSojournTime_returns[OF tx] obtain ok s2 where
    chk: "checkSojournTime (s\<lparr> m_packets := ps, m_bytesInQueue := m_bytesInQueue s - GetSize p \<rparr>)
            p (CoDelGetTime s nowT) nowT = Inr (ok, p\<lparr> timestampTag := None \<rparr>, s2)"
    by blast
  from assms(2) Cons chk show ?thesis
    by (auto simp add: DoDequeue_def Let_def getNextMarkingTime_def split: if_splits sum.splits)
qed

lemma run_tagged_error:
  "all_tagged s \<Longrightarrow> run cs s = Inl e \<Longrightarrow> e = DoubleToUint64OutOfRange"
proof (induction cs arbitrary: s)
  case Nil
  then show ?case by simp
next
  case (Cons c cs)
  show ?case
  proof (cases c)
    case (Enqueue p nowT)
    with Cons.prems have "run cs (snd (DoEnqueue s p nowT)) = Inl e" by simp
    from Cons.IH[OF DoEnqueue_all_tagged[OF Cons.prems(1)] this] show ?thesis .
  next
    case (Dequeue nowT)
    show ?thesis
    proof (cases "DoDequeue s nowT")
      case (Inl e')
      with Dequeue Cons.prems(2) have "e' = e" by simp
      with DoDequeue_tagged_error[OF Cons.prems(1) Inl] show ?thesis by simp
    next
      case (Inr r)
      then have d: "DoDequeue s nowT = Inr (fst r, snd r)" by simp
      from Inr Dequeue Cons.prems(2) have "run cs (snd r) = Inl e" by simp
      from Cons.IH[OF DoDequeue_all_tagged[OF d Cons.prems(1)] this] show ?thesis .
    qed
  qed
qed

lemma run_initial_error:
  "run cs (CoDelQueue2 mode maxPackets maxBytes interval target shift) = Inl e
     \<Longrightarrow> e = DoubleToUint64OutOfRange"
  by (rule run_tagged_error) (simp_all add: all_tagged_def CoDelQueue2_def)

subsection \<open>The probability stays in the unit interval\<close>





subsection \<open>The byte counter follows the queue\<close>

lemma DoEnqueue_bytes_counted:
  "bytes_counted s \<Longrightarrow> bytes_counted (snd (DoEnqueue s p nowT))"
  by (simp add: bytes_counted_def DoEnqueue_def Drop_def Queue_Drop_def AddPacketTag_def Let_def)

lemma DoDequeue_bytes_counted:
  "DoDequeue s nowT = Inr (r, s') \<Longrightarrow> bytes_counted s \<Longrightarrow> bytes_counted s'"
  by (cases "m_packets s") (simp_all add: bytes_counted_def DoDequeue_frame)

lemma run_bytes_counted:
  "run cs s = Inr s' \<Longrightarrow> bytes_counted s \<Longrightarrow> bytes_counted s'"
proof (induction cs arbitrary: s)
  case Nil
  then show ?case by simp
next
  case (Cons c cs)
  show ?case
  proof (cases c)
    case (Enqueue p nowT)
    with Cons.prems have "run cs (snd (DoEnqueue s p nowT)) = Inr s'" by simp
    from Cons.IH[OF this] Cons.prems(2) show ?thesis by (simp add: DoEnqueue_bytes_counted)
  next
    case (Dequeue nowT)
    with Cons.prems obtain r where d: "DoDequeue s nowT = Inr r" and rn: "run cs (snd r) = Inr s'"
      by (auto split: sum.splits)
    from d have "DoDequeue s nowT = Inr (fst r, snd r)" by simp
    from DoDequeue_bytes_counted[OF this Cons.prems(2)] Cons.IH[OF rn] show ?thesis by simp
  qed
qed

lemma unat_sum_list_sizes:
  "unat (sum_list (map GetSize ps)) = (\<Sum>p\<leftarrow>ps. unat (GetSize p)) mod 2 ^ 32"
proof (induction ps)
  case Nil
  show ?case by simp
next
  case (Cons p ps)
  have "unat (GetSize p + sum_list (map GetSize ps))
      = (unat (GetSize p) + unat (sum_list (map GetSize ps))) mod 2 ^ 32"
    by (simp add: unat_word_ariths)
  also have "\<dots> = (unat (GetSize p) + (\<Sum>p\<leftarrow>ps. unat (GetSize p))) mod 2 ^ 32"
    by (simp add: Cons.IH mod_add_right_eq)
  finally show ?case by simp
qed

subsection \<open>The queue limit, where the byte arithmetic does not wrap\<close>

lemma DoEnqueue_packets_within:
  "m_mode s = QUEUE_MODE_PACKETS \<Longrightarrow> packets_within s
     \<Longrightarrow> packets_within (snd (DoEnqueue s p nowT))"
  by (simp add: packets_within_def DoEnqueue_def Drop_def Queue_Drop_def Let_def)

lemma DoDequeue_packets_within:
  "DoDequeue s nowT = Inr (r, s') \<Longrightarrow> packets_within s \<Longrightarrow> packets_within s'"
  by (simp add: packets_within_def DoDequeue_frame)

lemma run_packets_within:
  "run cs s = Inr s' \<Longrightarrow> m_mode s = QUEUE_MODE_PACKETS \<Longrightarrow> packets_within s
     \<Longrightarrow> packets_within s' \<and> m_mode s' = QUEUE_MODE_PACKETS \<and> m_maxPackets s' = m_maxPackets s"
proof (induction cs arbitrary: s)
  case Nil
  then show ?case by simp
next
  case (Cons c cs)
  show ?case
  proof (cases c)
    case (Enqueue p nowT)
    with Cons.prems have "run cs (snd (DoEnqueue s p nowT)) = Inr s'" by simp
    from Cons.IH[OF this] Cons.prems(2,3) show ?thesis
      by (simp add: DoEnqueue_packets_within DoEnqueue_frame)
  next
    case (Dequeue nowT)
    with Cons.prems obtain r where d: "DoDequeue s nowT = Inr r" and rn: "run cs (snd r) = Inr s'"
      by (auto split: sum.splits)
    from d have d': "DoDequeue s nowT = Inr (fst r, snd r)" by simp
    from DoDequeue_packets_within[OF d' Cons.prems(3)] DoDequeue_frame(3,4)[OF d']
      Cons.IH[OF rn] Cons.prems(2)
    show ?thesis by simp
  qed
qed

text \<open>In packet-count mode the queue never holds more than \<open>maxPackets\<close> packets.\<close>

lemma GetQueueSize_packets_mode:
  assumes "run cs (CoDelQueue2 QUEUE_MODE_PACKETS maxPackets maxBytes interval target shift) = Inr s"
  shows "GetQueueSize s \<le> maxPackets"
proof -
  have "packets_within s \<and> m_mode s = QUEUE_MODE_PACKETS \<and> m_maxPackets s = maxPackets"
    using run_packets_within[OF assms] by (auto simp add: CoDelQueue2_def packets_within_def)
  then have l: "length (m_packets s) \<le> unat maxPackets" and m: "m_mode s = QUEUE_MODE_PACKETS"
    by (auto simp add: packets_within_def)
  have "unat (word_of_nat (length (m_packets s)) :: 32 word) \<le> length (m_packets s)"
    by (simp add: unat_of_nat)
  with l have "unat (word_of_nat (length (m_packets s)) :: 32 word) \<le> unat maxPackets" by simp
  with m show ?thesis by (simp add: GetQueueSize_def word_le_nat_alt)
qed

text \<open>In byte-count mode an accepted packet leaves the counter within the limit.\<close>

lemma DoEnqueue_accepted_bytes:
  "m_mode s = QUEUE_MODE_BYTES \<Longrightarrow> DoEnqueue s p nowT = (True, s')
     \<Longrightarrow> GetQueueSize s' \<le> m_maxBytes s'"
  by (auto simp add: DoEnqueue_def GetQueueSize_def Let_def split: if_splits)

lemma DoEnqueue_bytes_within:
  assumes "m_mode s = QUEUE_MODE_BYTES" and "bytes_within s"
    and "unat (GetSize p) + unat (m_maxBytes s) < 2 ^ 32"
  shows "bytes_within (snd (DoEnqueue s p nowT))"
proof -
  from assms(2) have le: "unat (m_bytesInQueue s) \<le> unat (m_maxBytes s)"
    by (simp add: bytes_within_def word_le_nat_alt)
  with assms(3) have "unat (m_bytesInQueue s) + unat (GetSize p) < 2 ^ LENGTH(32)" by simp
  then have "unat (m_bytesInQueue s + GetSize p) = unat (m_bytesInQueue s) + unat (GetSize p)"
    by (rule unat_add_lem[THEN iffD1])
  with assms(1,2) show ?thesis
    by (auto simp add: bytes_within_def DoEnqueue_def Drop_def Queue_Drop_def AddPacketTag_def Let_def)
qed

lemma DoDequeue_bytes_within:
  assumes "DoDequeue s nowT = Inr (r, s')" and "bytes_within s"
  shows "bytes_within s'"
proof (cases "m_packets s")
  case Nil
  with assms DoDequeue_frame[OF assms(1)] show ?thesis by (simp add: bytes_within_def)
next
  case (Cons p ps)
  from assms(2) Cons
  have sum: "unat (m_bytesInQueue s) = unat (GetSize p) + (\<Sum>p\<leftarrow>ps. unat (GetSize p))"
    and le: "unat (m_bytesInQueue s) \<le> unat (m_maxBytes s)"
    by (simp_all add: bytes_within_def word_le_nat_alt)
  from sum have "GetSize p \<le> m_bytesInQueue s" by (simp add: word_le_nat_alt)
  then have "unat (m_bytesInQueue s - GetSize p) = unat (m_bytesInQueue s) - unat (GetSize p)"
    by (simp add: unat_sub)
  with sum le Cons DoDequeue_frame[OF assms(1)] show ?thesis
    by (simp add: bytes_within_def word_le_nat_alt)
qed

lemma run_bytes_within:
  "run cs s = Inr s' \<Longrightarrow> m_mode s = QUEUE_MODE_BYTES \<Longrightarrow> bytes_within s
     \<Longrightarrow> small_packets (m_maxBytes s) cs
     \<Longrightarrow> bytes_within s' \<and> m_mode s' = QUEUE_MODE_BYTES \<and> m_maxBytes s' = m_maxBytes s"
proof (induction cs arbitrary: s)
  case Nil
  then show ?case by simp
next
  case (Cons c cs)
  show ?case
  proof (cases c)
    case (Enqueue p nowT)
    with Cons.prems have rn: "run cs (snd (DoEnqueue s p nowT)) = Inr s'"
      and sm: "unat (GetSize p) + unat (m_maxBytes s) < 2 ^ 32"
      and rest: "small_packets (m_maxBytes s) cs" by simp_all
    from Cons.IH[OF rn] DoEnqueue_bytes_within[OF Cons.prems(2,3) sm] Cons.prems(2) rest
    show ?thesis by (simp add: DoEnqueue_frame)
  next
    case (Dequeue nowT)
    with Cons.prems obtain r where d: "DoDequeue s nowT = Inr r" and rn: "run cs (snd r) = Inr s'"
      and rest: "small_packets (m_maxBytes s) cs"
      by (auto split: sum.splits)
    from d have d': "DoDequeue s nowT = Inr (fst r, snd r)" by simp
    from DoDequeue_bytes_within[OF d' Cons.prems(3)] DoDequeue_frame(3,5)[OF d'] Cons.IH[OF rn]
      Cons.prems(2) rest
    show ?thesis by simp
  qed
qed

text \<open>
  In byte-count mode the limit holds as long as no offered packet is large enough
  for the sum with a counter within the limit to pass \<open>2 ^ 32\<close>.
\<close>

lemma GetQueueSize_bytes_mode:
  assumes "run cs (CoDelQueue2 QUEUE_MODE_BYTES maxPackets maxBytes interval target shift) = Inr s"
    and "small_packets maxBytes cs"
  shows "GetQueueSize s \<le> maxBytes"
proof -
  have "bytes_within s \<and> m_mode s = QUEUE_MODE_BYTES \<and> m_maxBytes s = maxBytes"
    using run_bytes_within[OF assms(1)] assms(2) by (auto simp add: CoDelQueue2_def bytes_within_def)
  then show ?thesis by (auto simp add: GetQueueSize_def bytes_within_def)
qed

text \<open>What \<^verbatim>\<open>DoEnqueue\<close> does, with the byte test in the counter's 32-bit arithmetic.\<close>

lemma DoEnqueue_outcome:
  "DoEnqueue s p nowT =
     (if m_mode s = QUEUE_MODE_PACKETS \<and> unat (m_maxPackets s) < length (m_packets s) + 1
         \<or> m_mode s = QUEUE_MODE_BYTES \<and> m_maxBytes s < m_bytesInQueue s + GetSize p
      then (False, s\<lparr> m_nTotalDroppedPackets := m_nTotalDroppedPackets s + 1,
                       m_nTotalDroppedBytes := m_nTotalDroppedBytes s + GetSize p,
                       m_dropOverLimit := m_dropOverLimit s + 1 \<rparr>)
      else (True, s\<lparr> m_bytesInQueue := m_bytesInQueue s + GetSize p,
                      m_packets := m_packets s @ [p\<lparr> timestampTag := Some nowT \<rparr>] \<rparr>))"
  by (simp add: DoEnqueue_def Drop_def Queue_Drop_def AddPacketTag_def Let_def)

section \<open>The claims\<close>

subsection \<open>C1: the single-shot flag\<close>

text \<open>
  Claim C1, as amended. For every state, \<^verbatim>\<open>isOkToMark()\<close> clears the single-shot flag
  \<open>m_markNext\<close> and returns \<open>m_markNext \<and> m_overTargetForInterval\<close>: \<open>False\<close> when no
  scheduler firing preceded the call, and after a firing the current value of the
  confirmed-over-target flag, not the value of \<open>m_markNext\<close>. Nothing else changes.
\<close>

theorem isOkToMark_value:
  "isOkToMark s = (m_markNext s \<and> m_overTargetForInterval s, s\<lparr> m_markNext := False \<rparr>)"
  by (simp add: isOkToMark_def)

theorem isOkToMark_value_witness:
  "isOkToMark demo_marked = (True, demo_marked\<lparr> m_markNext := False \<rparr>)"
  using isOkToMark_value[of demo_marked] by (simp add: demo_defs)

text \<open>
  The claim as stated fails in \<open>demo_drained\<close>: the scheduler has fired (\<open>m_markNext\<close> is
  set), the queue has run empty since, and the call returns \<open>False\<close>.
\<close>

theorem isOkToMark_counterexample:
  "run [Enqueue (pkt 1 1000) 0, Enqueue (pkt 2 1000) 0, Dequeue 8000000, Dequeue 116000000,
        Dequeue 117000000] demo_queue = Inr demo_drained
   \<and> m_markNext demo_drained = True
   \<and> isOkToMark demo_drained = (False, demo_drained\<lparr> m_markNext := False \<rparr>)"
proof -
  have "m_markNext demo_drained = True"
    and "isOkToMark demo_drained = (False, demo_drained\<lparr> m_markNext := False \<rparr>)"
    by (simp_all add: demo_defs isOkToMark_def)
  with run_demo_drained show ?thesis by (intro conjI)
qed

subsection \<open>C2: confirming the over-target condition\<close>

text \<open>
  Claim C2, as amended. When the measured sojourn time exceeds the target and
  \<open>m_firstAboveTime\<close> is set (not 0), the tracker confirms the over-target condition
  exactly when \<open>now\<close> is strictly after \<open>m_firstAboveTime + interval\<close> in the wrap-safe
  order, that is \<open>(int64)(now - (m_firstAboveTime + interval)) > 0\<close>; equality does not
  confirm. On confirmation it reports \<open>True\<close>, sets \<open>m_overTargetForInterval\<close>, records
  \<open>m_sojourn = d\<close>, recomputes \<open>probability\<close> and \<open>Cwnd\<close> and sets
  \<open>sojournTime_before\<close> to \<open>d\<close> in seconds. Otherwise it reports \<open>False\<close>, clears
  \<open>m_overTargetForInterval\<close> and changes nothing else.
\<close>

theorem checkSojournTime_above_target:
  assumes "timestampTag p = Some tx"
    and "CoDelTimeAfter (Time2CoDel s (nowT - tx)) (Time2CoDel s (m_target s))"
    and "m_firstAboveTime s \<noteq> 0"
  shows "checkSojournTime s p now nowT =
     (if 0 < sint (now - (m_firstAboveTime s + Time2CoDel s (m_interval s))) then
        Inr (True, p\<lparr> timestampTag := None \<rparr>,
          s\<lparr> m_sojourn := nowT - tx,
             m_overTargetForInterval := True,
             probability := min 1 (max 0 (probability s
                  + 0.125 * (GetSeconds (nowT - tx) - GetSeconds (m_target s))
                  + 1.25 * (GetSeconds (nowT - tx) - sojournTime_before s))),
             Cwnd := (if GetSeconds (nowT - tx) = 0 then None
                      else Some ((0.125 * (GetSeconds (m_target s) - GetSeconds (nowT - tx))
                                  - min 1 (max 0 (probability s
                                      + 0.125 * (GetSeconds (nowT - tx) - GetSeconds (m_target s))
                                      + 1.25 * (GetSeconds (nowT - tx) - sojournTime_before s))))
                                 / (1.375 * GetSeconds (nowT - tx)))),
             sojournTime_before := GetSeconds (nowT - tx) \<rparr>)
      else Inr (False, p\<lparr> timestampTag := None \<rparr>, s\<lparr> m_overTargetForInterval := False \<rparr>))"
  using assms by (simp add: checkSojournTime_def Let_def clamp_min_max CoDelTimeAfter_def)

theorem checkSojournTime_above_target_witness:
  "checkSojournTime demo_popped (AddPacketTag 0 (pkt 2 1000)) 113281 116000000
     = Inr (True, pkt 2 1000, demo_confirmed)"
proof -
  have h: "timestampTag (AddPacketTag 0 (pkt 2 1000)) = Some 0"
    "CoDelTimeAfter (Time2CoDel demo_popped (116000000 - 0))
       (Time2CoDel demo_popped (m_target demo_popped))"
    "m_firstAboveTime demo_popped \<noteq> 0"
    by (simp_all add: demo_defs codel_defs)
  from checkSojournTime_above_target[OF h, of 113281] show ?thesis
    by (simp add: demo_defs codel_defs)
qed

text \<open>
  The claim as stated (inclusive at equality) fails in \<open>demo_pending\<close>: the second packet
  leaves at CoDel time 105468, which is \<open>m_firstAboveTime + interval\<close> exactly, after a
  sojourn far above the target; nothing is confirmed and nothing recorded.
\<close>

theorem checkSojournTime_equality_counterexample:
  "m_packets demo_pending = [AddPacketTag 0 (pkt 2 1000)]
   \<and> CoDelTimeAfter (Time2CoDel demo_pending (107999232 - 0))
        (Time2CoDel demo_pending (m_target demo_pending))
   \<and> m_firstAboveTime demo_pending = 7812
   \<and> CoDelGetTime demo_pending 107999232
        = m_firstAboveTime demo_pending + Time2CoDel demo_pending (m_interval demo_pending)
   \<and> DoDequeue demo_pending 107999232 = Inr (Some (pkt 2 1000), demo_unconfirmed)
   \<and> m_overTargetForInterval demo_unconfirmed = False
   \<and> m_sojourn demo_unconfirmed = 0
   \<and> probability demo_unconfirmed = 0
   \<and> sojournTime_before demo_unconfirmed = 0"
  by (simp add: demo_defs codel_defs)

subsection \<open>C3: the probability and window estimator\<close>



subsection \<open>C4: the marking scheduler\<close>




subsection \<open>C5: admission\<close>

text \<open>
  Claim C5. \<^verbatim>\<open>DoEnqueue\<close> rejects, counts the drop and leaves queue and byte counter
  alone, or accepts, stamps and appends the packet and adds its size, as lemma
  \<open>DoEnqueue_outcome\<close> states; but the byte-count test adds in 32 bits. In \<open>bytes_sixty\<close>
  (byte-count mode, limit 100, 60 bytes queued) a packet of 4294967286 bytes would
  exceed the limit, the sum wraps around to 50, and the packet is accepted.
\<close>

theorem DoEnqueue_byte_sum_wraps:
  "run [Enqueue (pkt 1 60) 0] bytes_queue = Inr bytes_sixty
   \<and> m_mode bytes_sixty = QUEUE_MODE_BYTES
   \<and> unat (m_maxBytes bytes_sixty) = 100
   \<and> unat (m_bytesInQueue bytes_sixty) + unat (GetSize (pkt 2 4294967286)) = 4294967346
   \<and> DoEnqueue bytes_sixty (pkt 2 4294967286) 0 =
       (True, bytes_sixty\<lparr> m_packets :=
                              [AddPacketTag 0 (pkt 1 60), AddPacketTag 0 (pkt 2 4294967286)],
                            m_bytesInQueue := 50 \<rparr>)"
proof -
  have "m_mode bytes_sixty = QUEUE_MODE_BYTES"
    and "unat (m_maxBytes bytes_sixty) = 100"
    and "unat (m_bytesInQueue bytes_sixty) + unat (GetSize (pkt 2 4294967286)) = 4294967346"
    and "DoEnqueue bytes_sixty (pkt 2 4294967286) 0 =
       (True, bytes_sixty\<lparr> m_packets :=
                              [AddPacketTag 0 (pkt 1 60), AddPacketTag 0 (pkt 2 4294967286)],
                            m_bytesInQueue := 50 \<rparr>)"
    by (simp_all add: demo_defs codel_defs)
  with run_bytes_sixty show ?thesis by (intro conjI)
qed

subsection \<open>C6: the byte counter\<close>

text \<open>
  Claim C6, as amended. After every run of enqueues and dequeues from the initial
  state, \<open>m_bytesInQueue\<close> is non-negative and equals the sum of the sizes of the queued
  packets modulo \<open>2 ^ 32\<close> (it is a 32-bit counter); it equals the sum itself whenever
  the sum is below \<open>2 ^ 32\<close>.
\<close>

theorem bytesInQueue_sum_mod:
  assumes "run cs (CoDelQueue2 mode maxPackets maxBytes interval target shift) = Inr s"
  shows "0 \<le> uint (m_bytesInQueue s)
     \<and> unat (m_bytesInQueue s) = (\<Sum>p\<leftarrow>m_packets s. unat (GetSize p)) mod 2 ^ 32
     \<and> ((\<Sum>p\<leftarrow>m_packets s. unat (GetSize p)) < 2 ^ 32
          \<longrightarrow> unat (m_bytesInQueue s) = (\<Sum>p\<leftarrow>m_packets s. unat (GetSize p)))"
proof -
  have "bytes_counted (CoDelQueue2 mode maxPackets maxBytes interval target shift)"
    by (simp add: bytes_counted_def CoDelQueue2_def)
  from run_bytes_counted[OF assms this]
  have "unat (m_bytesInQueue s) = (\<Sum>p\<leftarrow>m_packets s. unat (GetSize p)) mod 2 ^ 32"
    by (simp add: bytes_counted_def unat_sum_list_sizes)
  then show ?thesis by simp
qed

theorem bytesInQueue_sum_mod_witness:
  "unat (m_bytesInQueue demo_one) = 1000 mod 2 ^ 32 \<and> unat (m_bytesInQueue demo_one) = 1000"
  using bytesInQueue_sum_mod[OF run_demo_one] by (simp add: demo_defs)

text \<open>
  The claim as stated fails with two packets of \<open>2 ^ 31\<close> bytes each in the queue: the
  counter is back at 0.
\<close>

theorem bytesInQueue_sum_counterexample:
  "run [Enqueue (pkt 1 2147483648) 0, Enqueue (pkt 2 2147483648) 0] demo_queue =
     Inr (demo_queue\<lparr> m_packets := [AddPacketTag 0 (pkt 1 2147483648),
                                      AddPacketTag 0 (pkt 2 2147483648)],
                      m_bytesInQueue := 0 \<rparr>)
   \<and> (\<Sum>p\<leftarrow>[AddPacketTag 0 (pkt 1 2147483648), AddPacketTag 0 (pkt 2 2147483648)].
         unat (GetSize p)) = 4294967296"
  by (simp add: demo_defs codel_defs)

subsection \<open>C7: the queue limit\<close>

text \<open>
  Claim C7. In packet-count mode the limit holds after every run (lemma
  \<open>GetQueueSize_packets_mode\<close>); in byte-count mode it holds while no offered packet can
  make the 32-bit admission sum wrap (lemma \<open>GetQueueSize_bytes_mode\<close>). With a limit of
  100 bytes, a packet of 60 bytes and then one of 4294967286 bytes are both accepted;
  after the first is dequeued \<^verbatim>\<open>GetQueueSize\<close> is 4294967286.
\<close>

theorem GetQueueSize_exceeds_maxBytes:
  "run [Enqueue (pkt 1 60) 0, Enqueue (pkt 2 4294967286) 0, Dequeue 0] bytes_queue =
     Inr (bytes_queue\<lparr> m_packets := [AddPacketTag 0 (pkt 2 4294967286)],
                        m_bytesInQueue := 4294967286, m_states := 1 \<rparr>)
   \<and> GetQueueSize (bytes_queue\<lparr> m_packets := [AddPacketTag 0 (pkt 2 4294967286)],
                        m_bytesInQueue := 4294967286, m_states := 1 \<rparr>) = 4294967286
   \<and> m_maxBytes bytes_queue = 100"
  by (simp add: demo_defs codel_defs GetQueueSize_def)

subsection \<open>C8: dequeue on an empty queue\<close>

text \<open>
  Claim C8. On an empty queue \<^verbatim>\<open>DoDequeue\<close> returns no packet, sets
  \<open>m_firstAboveTime\<close> to 0 and clears \<open>m_overTargetForInterval\<close>; every other field,
  \<open>m_markedCount\<close>, \<open>m_nextMarkingTime\<close>, \<open>m_markNext\<close>, \<open>probability\<close>,
  \<open>sojournTime_before\<close> and the counters among them, keeps its value.
\<close>

theorem DoDequeue_empty:
  assumes "m_packets s = []"
  shows "DoDequeue s nowT =
           Inr (None, s\<lparr> m_overTargetForInterval := False, m_firstAboveTime := 0 \<rparr>)"
  using assms by (simp add: DoDequeue_def)

theorem DoDequeue_empty_witness:
  "DoDequeue demo_marked 117000000 = Inr (None, demo_drained)
   \<and> m_markedCount demo_drained = 1 \<and> m_markNext demo_drained
   \<and> m_nextMarkingTime demo_drained = 220702 \<and> probability demo_drained = 0.158875"
proof -
  have "m_packets demo_marked = []" by (simp add: demo_defs)
  from DoDequeue_empty[OF this, of 117000000] show ?thesis by (simp add: demo_defs)
qed

subsection \<open>C9: peek\<close>

text \<open>
  Claim C9. Any number of \<^verbatim>\<open>DoPeek\<close> calls in a row return the same result each time,
  the head packet or nothing for an empty queue, and leave the state, \<open>m_bytesInQueue\<close>
  included, as it was.
\<close>

theorem DoPeek_repeated:
  "peeks n s = (replicate n (case m_packets s of [] \<Rightarrow> None | p # ps \<Rightarrow> Some p), s)"
  by (induction n) (simp_all add: DoPeek_def split: list.splits)

theorem DoPeek_repeated_witness:
  "peeks (Suc (Suc (Suc 0))) demo_pending =
     ([Some (AddPacketTag 0 (pkt 2 1000)), Some (AddPacketTag 0 (pkt 2 1000)),
       Some (AddPacketTag 0 (pkt 2 1000))], demo_pending)"
  using DoPeek_repeated[of "Suc (Suc (Suc 0))" demo_pending] by (simp add: demo_defs)

subsection \<open>C10: the over-limit query\<close>

text \<open>
  Claim C10, as amended. For a fraction in \<open>[0, 1]\<close>, \<^verbatim>\<open>isQueueOverLimit\<close> answers
  whether the byte counter exceeds the double-precision product of \<open>maxBytes\<close> and the
  fraction, or the packet count exceeds the double-precision product of \<open>maxPackets\<close>
  and the fraction (each product rounded to the nearest \<^verbatim>\<open>double\<close>, ties to even). It
  tests both limits whatever the mode; \<^verbatim>\<open>DoEnqueue\<close> tests only the limit of the mode
  in force.
\<close>

theorem isQueueOverLimit_both_limits:
  assumes "0 \<le> limit" and "limit \<le> 1"
  shows "isQueueOverLimit s limit =
       Inr (real (unat (m_bytesInQueue s)) > double_mul (real (unat (m_maxBytes s))) limit
            \<or> real (length (m_packets s)) > double_mul (real (unat (m_maxPackets s))) limit)
     \<and> isQueueOverLimit (s\<lparr> m_mode := mode \<rparr>) limit = isQueueOverLimit s limit
     \<and> (m_mode s = QUEUE_MODE_PACKETS \<longrightarrow>
          fst (DoEnqueue s p nowT) = (length (m_packets s) + 1 \<le> unat (m_maxPackets s)))
     \<and> (m_mode s = QUEUE_MODE_BYTES \<longrightarrow>
          fst (DoEnqueue s p nowT) = (m_bytesInQueue s + GetSize p \<le> m_maxBytes s))"
  using assms by (auto simp add: isQueueOverLimit_def DoEnqueue_def Let_def)

text \<open>
  \<open>demo_one\<close> is in packet-count mode with 1 of 100 packets and 1000 of 1500 bytes:
  at one half it is over the limit, on account of the bytes (\<open>1000 > 750\<close>, while
  \<open>1 > 50\<close> fails), and the next packet of 1000 bytes is accepted all the same.
\<close>

theorem isQueueOverLimit_both_limits_witness:
  "isQueueOverLimit demo_one (1 / 2) = Inr True
   \<and> isQueueOverLimit (demo_one\<lparr> m_mode := QUEUE_MODE_BYTES \<rparr>) (1 / 2) = Inr True
   \<and> fst (DoEnqueue demo_one (pkt 2 1000) 0) = True"
proof -
  have h: "(0::real) \<le> 1 / 2" "(1 / 2 :: real) \<le> 1" by simp_all
  have v: "m_mode demo_one = QUEUE_MODE_PACKETS" "length (m_packets demo_one) = 1"
    "unat (m_maxPackets demo_one) = 100" "unat (m_maxBytes demo_one) = 1500"
    "unat (m_bytesInQueue demo_one) = 1000"
    by (simp_all add: demo_defs)
  from isQueueOverLimit_both_limits[OF h, of demo_one QUEUE_MODE_BYTES "pkt 2 1000" 0]
  show ?thesis by (simp add: v double_mul_half)
qed

text \<open>
  The claim as stated, with the products taken exactly, fails in \<open>bytes_three\<close> at the
  fraction \<^verbatim>\<open>0.3\<close>: ten times that \<^verbatim>\<open>double\<close> is \<open>3 - 2 ^ (- 53)\<close> in exact arithmetic,
  so the 3 queued bytes exceed it; but the double-precision product is 3, the test
  \<open>3 > 3\<close> fails, the packet test \<open>1 > 300\<close> fails too, and the answer is \<open>False\<close>.
\<close>

theorem isQueueOverLimit_exact_product_counterexample:
  "run [Enqueue (pkt 1 3) 0] (CoDelQueue2 QUEUE_MODE_BYTES 1000 10 100000000 5000000 10)
     = Inr bytes_three
   \<and> double_round (3 / 10) = double_three_tenths
   \<and> 0 \<le> double_three_tenths \<and> double_three_tenths \<le> 1
   \<and> real (unat (m_bytesInQueue bytes_three))
        > real (unat (m_maxBytes bytes_three)) * double_three_tenths
   \<and> isQueueOverLimit bytes_three double_three_tenths = Inr False"
proof -
  have b: "0 \<le> double_three_tenths" "double_three_tenths \<le> 1"
    by (simp_all add: double_three_tenths_def)
  have v: "unat (m_bytesInQueue bytes_three) = 3" "unat (m_maxBytes bytes_three) = 10"
    "unat (m_maxPackets bytes_three) = 1000" "length (m_packets bytes_three) = 1"
    by (simp_all add: demo_defs)
  have x: "real (unat (m_bytesInQueue bytes_three))
        > real (unat (m_maxBytes bytes_three)) * double_three_tenths"
    by (simp add: v double_three_tenths_def)
  have a: "isQueueOverLimit bytes_three double_three_tenths = Inr False"
    using b by (simp add: isQueueOverLimit_def v double_mul_ten_three_tenths
        double_mul_thousand_three_tenths)
  from run_bytes_three double_round_three_tenths b x a show ?thesis by (intro conjI)
qed

end
